theory Spec2Isabelle
  imports Main
begin

section \<open>The API application: \<open>src/python/txtai/api/application.py\<close>\<close>

subsection \<open>Data\<close>

text \<open>
  Exceptions of the program as values. \<open>ConfigurationError\<close>, \<open>BackendUnavailableError\<close>
  and \<open>CapabilityMismatchError\<close> are the kinds the specification names; \<open>OtherError\<close> stands for
  any other exception a collaborator outside these two modules raises. The first two
  carry the name they are about, of type \<open>'n\<close>: a string of the kind their raiser
  handles.
\<close>

datatype 'n error =
    ConfigurationError 'n
  | BackendUnavailableError 'n string
  | CapabilityMismatchError string
  | OtherError string

text \<open>
  A router object is the \<open>router\<close> attribute of one module of the package
  \<open>txtai.api.routers\<close>; \<open>Router ''embeddings''\<close> is \<open>embeddings.router\<close>.
\<close>

datatype router = Router (module: string)

text \<open>
  The FastAPI object \<open>app\<close>. \<open>included\<close> lists the arguments of the calls of
  \<open>app.include_router\<close>, oldest first; \<open>other\<close> is everything else of the object,
  which only extensions touch.
\<close>

record 'x FastAPI =
  included :: "router list"
  other :: 'x

definition include_router :: "router \<Rightarrow> 'x FastAPI \<Rightarrow> 'x FastAPI" where
  "include_router r a = a\<lparr>included := included a @ [r]\<rparr>"

text \<open>The YAML settings: a dict from capability name to its settings.\<close>

type_synonym 'v config = "string \<rightharpoonup> 'v"

text \<open>The test \<open>name in config\<close>: \<open>name\<close> is a key of the dict.\<close>

definition contains :: "'v config \<Rightarrow> string \<Rightarrow> bool" where
  "contains config name = (config name \<noteq> None)"

subsection \<open>Router wiring in \<open>start\<close>\<close>

text \<open>The list \<open>routers\<close> of \<open>start\<close>, in the order of the source.\<close>

definition routers :: "(string \<times> router) list" where
  "routers =
    [ (''caption'', Router ''caption''),
      (''embeddings'', Router ''embeddings''),
      (''extractor'', Router ''extractor''),
      (''labels'', Router ''labels''),
      (''objects'', Router ''objects''),
      (''segmentation'', Router ''segmentation''),
      (''similarity'', Router ''similarity''),
      (''summary'', Router ''summary''),
      (''tabular'', Router ''tabular''),
      (''textractor'', Router ''textractor''),
      (''transcription'', Router ''transcription''),
      (''translation'', Router ''translation''),
      (''workflow'', Router ''workflow'') ]"

text \<open>
  The loop \<open>for name, router in routers: if name in config: app.include_router(router)\<close>.
\<close>

fun add_routes :: "'v config \<Rightarrow> (string \<times> router) list \<Rightarrow> 'x FastAPI \<Rightarrow> 'x FastAPI" where
  "add_routes config [] a = a"
| "add_routes config ((name, router) # rest) a =
     add_routes config rest (if contains config name then include_router router a else a)"

text \<open>
  The loop followed by the two special cases: the embeddings router for a cluster
  without embeddings, the similarity router for embeddings without similarity. Both
  tests read \<open>config\<close>, which \<open>start\<close> never changes.
\<close>

definition start_routers :: "'v config \<Rightarrow> 'x FastAPI \<Rightarrow> 'x FastAPI" where
  "start_routers config a0 =
    (let a1 = add_routes config routers a0;
         a2 = (if contains config ''cluster'' \<and> \<not> contains config ''embeddings''
               then include_router (Router ''embeddings'') a1 else a1);
         a3 = (if contains config ''embeddings'' \<and> \<not> contains config ''similarity''
               then include_router (Router ''similarity'') a2 else a2)
     in a3)"

text \<open>The \<open>app = FastAPI()\<close> of the module: nothing included yet.\<close>

definition new_app :: "unit FastAPI" where
  "new_app = \<lparr>included = [], other = ()\<rparr>"

text \<open>
  The names of the routers that one pass wires into a new app, in call order, and the
  capabilities then in force: the declared keys together with the wired names.
\<close>

definition wired :: "'v config \<Rightarrow> string list" where
  "wired config = map module (included (start_routers config new_app))"

definition resolved :: "'v config \<Rightarrow> string set" where
  "resolved config = dom config \<union> set (wired config)"

text \<open>
  A configuration with the keys \<open>D\<close>; the settings are opaque to the wiring, which
  only tests keys.
\<close>

definition keys_config :: "string set \<Rightarrow> unit config" where
  "keys_config D = (\<lambda>k. if k \<in> D then Some () else None)"

definition resolve :: "string set \<Rightarrow> string set" where
  "resolve D = resolved (keys_config D)"

text \<open>
  The two special cases of \<open>start\<close> as capability edges (trigger set, implied name).
\<close>

definition capability_edges :: "(string set \<times> string) list" where
  "capability_edges =
    [ ({''cluster''}, ''embeddings''),
      ({''embeddings''}, ''similarity'') ]"

text \<open>
  The resolution algorithm in the words of the specification: for each edge, if the
  trigger is a subset of the declared set and the implied name is not declared, add
  the implied name; the result is the declared set with all additions of that one pass.
\<close>

definition spec_resolve :: "(string set \<times> string) list \<Rightarrow> string set \<Rightarrow> string set" where
  "spec_resolve edges declared =
     declared \<union> set (map snd (filter (\<lambda>(trigger, implied). trigger \<subseteq> declared \<and> implied \<notin> declared) edges))"

subsection \<open>Strings of the extension list\<close>

text \<open>
  A value of \<open>os.getenv\<close> is a Python \<open>str\<close>, a sequence of Unicode code points, and
  \<open>split\<close> and \<open>strip\<close> work on code points. Such a string is the list of its code
  points here; \<open>ustr\<close> gives the one of a string written in this file, character by
  character.
\<close>

type_synonym str = "nat list"

definition ustr :: "string \<Rightarrow> str" where
  "ustr s = map of_char s"

text \<open>
  Truth value of a string or \<open>None\<close> in a condition, as in \<open>if api\<close>, \<open>if extensions\<close>
  and \<open>path if path\<close>: \<open>None\<close> and the empty string are false.
\<close>

definition truthy :: "'c list option \<Rightarrow> bool" where
  "truthy v = (case v of None \<Rightarrow> False | Some s \<Rightarrow> s \<noteq> [])"

text \<open>
  \<open>s.split(sep)\<close> for a separator of one character: every occurrence of the
  separator ends a field, so \<open>n\<close> separators give \<open>n + 1\<close> fields, empty ones included.
\<close>

fun str_split :: "'c \<Rightarrow> 'c list \<Rightarrow> 'c list list" where
  "str_split sep [] = [[]]"
| "str_split sep (c # cs) =
     (if c = sep then [] # str_split sep cs
      else (case str_split sep cs of
              [] \<Rightarrow> [[c]]
            | w # ws \<Rightarrow> (c # w) # ws))"

text \<open>
  The whitespace of Python, which \<open>str.isspace\<close> accepts and \<open>str.strip\<close> removes:
  U+0009 to U+000D, U+001C to U+0020, U+0085, U+00A0, U+1680, U+2000 to U+200A, U+2028,
  U+2029, U+202F, U+205F and U+3000.
\<close>

definition isspace :: "nat \<Rightarrow> bool" where
  "isspace c =
     ((9 \<le> c \<and> c \<le> 13) \<or> (28 \<le> c \<and> c \<le> 32) \<or> c = 133 \<or> c = 160 \<or> c = 5760
      \<or> (8192 \<le> c \<and> c \<le> 8202) \<or> c = 8232 \<or> c = 8233 \<or> c = 8239 \<or> c = 8287
      \<or> c = 12288)"

text \<open>\<open>s.strip()\<close>: the leading and the trailing whitespace removed.\<close>

definition str_strip :: "str \<Rightarrow> str" where
  "str_strip s = rev (dropWhile isspace (rev (dropWhile isspace s)))"

subsection \<open>Globals, collaborators and \<open>start\<close>\<close>

text \<open>
  An extension instance is called with the app as its one argument; it may change the
  app and may raise. An extension class is called with no argument and gives an
  instance or raises.
\<close>

type_synonym 'x extension = "'x FastAPI \<Rightarrow> str error option \<times> 'x FastAPI"

type_synonym 'x extension_class = "str error + 'x extension"

text \<open>
  The calls the extension loop makes, by extension name: \<open>Factory.get(name)\<close>, the
  call of the class, the call of the instance.
\<close>

datatype call = FactoryGet str | Construct str | Invoke str

text \<open>
  The module's globals \<open>INSTANCE\<close> and \<open>app\<close>, and the log of the calls of the
  extension loop, oldest first.
\<close>

record ('api, 'x) globals =
  INSTANCE :: "'api option"
  app :: "'x FastAPI"
  calls :: "call list"

text \<open>The module as loaded: \<open>INSTANCE = None\<close>, \<open>app = FastAPI()\<close>.\<close>

definition module_globals :: "('api, unit) globals" where
  "module_globals = \<lparr>INSTANCE = None, app = new_app, calls = []\<rparr>"

text \<open>
  What \<open>start\<close> calls outside this module: \<open>os.getenv\<close>, \<open>API.read\<close>,
  the constructor \<open>API\<close>, \<open>Factory.create\<close> and \<open>Factory.get\<close>.
\<close>

record ('v, 'api, 'x) collaborators =
  getenv :: "string \<Rightarrow> str option"
  API_read :: "str option \<Rightarrow> str error + 'v config"
  API_new :: "'v config \<Rightarrow> str error + 'api"
  Factory_create :: "'v config \<Rightarrow> str \<Rightarrow> str error + 'api"
  Factory_get :: "str \<Rightarrow> str error + 'x extension_class"

text \<open>The accessor \<open>get\<close>: it returns the global, whatever it holds.\<close>

definition get :: "('api, 'x) globals \<Rightarrow> str error + 'api option" where
  "get g = Inr (INSTANCE g)"

text \<open>
  The loop over \<open>extensions.split(",")\<close>. An exception ends the loop and leaves
  \<open>start\<close>; the globals keep what was done before it.
\<close>

fun run_extensions ::
  "('v, 'api, 'x) collaborators \<Rightarrow> str list \<Rightarrow> ('api, 'x) globals \<Rightarrow>
     str error option \<times> ('api, 'x) globals" where
  "run_extensions d [] g = (None, g)"
| "run_extensions d (extension # rest) g =
     (let name = str_strip extension;
          g1 = g\<lparr>calls := calls g @ [FactoryGet name]\<rparr>
      in case Factory_get d name of
           Inl e \<Rightarrow> (Some e, g1)
         | Inr cls \<Rightarrow>
             (let g2 = g1\<lparr>calls := calls g1 @ [Construct name]\<rparr>
              in case cls of
                   Inl e \<Rightarrow> (Some e, g2)
                 | Inr instance \<Rightarrow>
                     (let g3 = g2\<lparr>calls := calls g2 @ [Invoke name]\<rparr>
                      in case instance (app g3) of
                           (Some e, a) \<Rightarrow> (Some e, g3\<lparr>app := a\<rparr>)
                         | (None, a) \<Rightarrow> run_extensions d rest (g3\<lparr>app := a\<rparr>))))"

definition start ::
  "('v, 'api, 'x) collaborators \<Rightarrow> ('api, 'x) globals \<Rightarrow> str error option \<times> ('api, 'x) globals" where
  "start d g =
    (case API_read d (getenv d ''CONFIG'') of
       Inl e \<Rightarrow> (Some e, g)
     | Inr config \<Rightarrow>
        (let api = getenv d ''API_CLASS''
         in case (if truthy api then Factory_create d config (the api) else API_new d config) of
              Inl e \<Rightarrow> (Some e, g)
            | Inr instance \<Rightarrow>
                (let g1 = g\<lparr>INSTANCE := Some instance\<rparr>;
                     g2 = g1\<lparr>app := start_routers config (app g1)\<rparr>;
                     extensions = getenv d ''EXTENSIONS''
                 in if truthy extensions
                    then run_extensions d (str_split (of_char CHR '','') (the extensions)) g2
                    else (None, g2))))"

text \<open>
  Modelled from the spec: \<open>Factory.get\<close> (module \<open>txtai.api.factory\<close> is not among the
  source files). The specification has a name resolved by exact-match lookup in a
  registry from names to zero-argument constructible units, and an unresolved name
  fail with a \<open>ConfigurationError\<close> naming it.
\<close>

definition registry_get ::
  "(str \<rightharpoonup> 'x extension_class) \<Rightarrow> str \<Rightarrow> str error + 'x extension_class" where
  "registry_get registry name =
     (case registry name of
        None \<Rightarrow> Inl (ConfigurationError name)
      | Some cls \<Rightarrow> Inr cls)"

section \<open>The LLM pipeline: \<open>src/python/txtai/pipeline/llm/llm.py\<close>\<close>

text \<open>
  A generation backend is called with the text, the maximum length and the keyword
  arguments; it returns the generated text or raises.
\<close>

type_synonym ('t, 'k, 'o) generation = "'t \<Rightarrow> int \<Rightarrow> 'k \<Rightarrow> string error + 'o"

record ('t, 'k, 'o) LLM =
  generator :: "('t, 'k, 'o) generation"

text \<open>
  \<open>LLM.__init__(path, method, **kwargs)\<close>, with \<open>GenerationFactory.create\<close> as the
  parameter \<open>create\<close>. An exception of the factory leaves the constructor.
\<close>

definition LLM_init ::
  "(string \<Rightarrow> string option \<Rightarrow> 'kw \<Rightarrow> string error + ('t, 'k, 'o) generation) \<Rightarrow>
     string option \<Rightarrow> string option \<Rightarrow> 'kw \<Rightarrow> string error + ('t, 'k, 'o) LLM" where
  "LLM_init create path method kwargs =
    (let path' = (if truthy path then the path else ''google/flan-t5-base'')
     in case create path' method kwargs of
          Inl e \<Rightarrow> Inl e
        | Inr g \<Rightarrow> Inr \<lparr>generator = g\<rparr>)"

text \<open>
  \<open>LLM.__call__(text, maxlength=512, **kwargs)\<close>; \<open>maxlength = None\<close> is the call
  that leaves the argument out.
\<close>

definition LLM_call :: "('t, 'k, 'o) LLM \<Rightarrow> 't \<Rightarrow> int option \<Rightarrow> 'k \<Rightarrow> string error + 'o" where
  "LLM_call self text maxlength kwargs =
     generator self text (case maxlength of None \<Rightarrow> 512 | Some m \<Rightarrow> m) kwargs"

text \<open>
  Modelled from the spec: identifier inference (\<open>GenerationFactory\<close> of module
  \<open>txtai.pipeline.llm.factory\<close> is not among the source files). The specification has
  the identifier inspected for family-specific markers, and the default family returned
  when no marker matches; it fixes neither the markers nor the families, which are
  parameters here: \<open>markers\<close> pairs each test on the identifier with its family, in
  the order they are tried.
\<close>

definition infer :: "((string \<Rightarrow> bool) \<times> string) list \<Rightarrow> string \<Rightarrow> string \<Rightarrow> string" where
  "infer markers default_family identifier =
     (case find (\<lambda>(marker, family). marker identifier) markers of
        None \<Rightarrow> default_family
      | Some (marker, family) \<Rightarrow> family)"

text \<open>
  Modelled from the spec: \<open>GenerationFactory.create\<close>, the backend resolver (same
  missing module). The method is inferred from the identifier when none is supplied; an
  unknown method fails with a \<open>ConfigurationError\<close> naming it; a failure inside the
  backend's construction is a \<open>BackendUnavailableError\<close> with the family and the cause.
  \<open>families\<close> maps each supported family to the construction of its backend.
\<close>

definition GenerationFactory_create ::
  "(string \<rightharpoonup> (string \<Rightarrow> 'kw \<Rightarrow> string + 'g)) \<Rightarrow> (string \<Rightarrow> string) \<Rightarrow>
     string \<Rightarrow> string option \<Rightarrow> 'kw \<Rightarrow> string error + 'g" where
  "GenerationFactory_create families inference path method kwargs =
    (let m = (case method of None \<Rightarrow> inference path | Some m \<Rightarrow> m)
     in case families m of
          None \<Rightarrow> Inl (ConfigurationError m)
        | Some construct \<Rightarrow>
            (case construct path kwargs of
               Inl cause \<Rightarrow> Inl (BackendUnavailableError m cause)
             | Inr backend \<Rightarrow> Inr backend))"

section \<open>Concrete collaborators\<close>

text \<open>
  Small stand-ins for the collaborators, on which the definitions above can be run.
  The extension \<open>marking name\<close> includes a router called \<open>name\<close>, so that its
  call shows in the app; the registry knows the extensions \<open>a\<close> and \<open>b\<close>; the
  settings hold the one key \<open>embeddings\<close>.
\<close>

definition marking :: "string \<Rightarrow> unit extension" where
  "marking name a = (None, include_router (Router name) a)"

definition test_registry :: "str \<rightharpoonup> unit extension_class" where
  "test_registry = [ustr ''a'' \<mapsto> Inr (marking ''a''), ustr ''b'' \<mapsto> Inr (marking ''b'')]"

definition test_collaborators :: "str option \<Rightarrow> (unit, string, unit) collaborators" where
  "test_collaborators extensions =
     \<lparr> getenv = (\<lambda>key. if key = ''EXTENSIONS'' then extensions else None),
       API_read = (\<lambda>data. Inr [''embeddings'' \<mapsto> ()]),
       API_new = (\<lambda>config. Inr ''api''),
       Factory_create = (\<lambda>config api. Inr ''custom api''),
       Factory_get = registry_get test_registry \<rparr>"

text \<open>
  A backend that returns the text cut to \<open>maxlength\<close> characters and raises on an
  empty text; the family \<open>transformers\<close> constructs it, the construction of the family
  \<open>llama.cpp\<close> fails, and an identifier that ends in \<open>.gguf\<close> carries the marker of
  the family \<open>llama.cpp\<close>.
\<close>

definition test_backend :: "(string, (string \<times> string) list, string) generation" where
  "test_backend text maxlength kwargs =
     (if text = [] then Inl (OtherError ''empty input'') else Inr (take (nat maxlength) text))"

definition test_families ::
  "string \<rightharpoonup> (string \<Rightarrow> unit \<Rightarrow> string + (string, (string \<times> string) list, string) generation)" where
  "test_families =
     [''transformers'' \<mapsto> (\<lambda>path kwargs. Inr test_backend),
      ''llama.cpp'' \<mapsto> (\<lambda>path kwargs. Inl ''no model at the path'')]"

definition test_markers :: "((string \<Rightarrow> bool) \<times> string) list" where
  "test_markers = [(\<lambda>identifier. take 5 (rev identifier) = rev ''.gguf'', ''llama.cpp'')]"

section \<open>Properties of the router wiring\<close>

lemma included_add_routes:
  "included (add_routes config rs a) =
     included a @ map snd (filter (\<lambda>(n, r). contains config n) rs)"
  by (induction rs arbitrary: a) (auto simp: include_router_def)

lemma included_start_routers:
  "included (start_routers config a) =
     included a @ map snd (filter (\<lambda>(n, r). contains config n) routers)
       @ (if contains config ''cluster'' \<and> \<not> contains config ''embeddings''
          then [Router ''embeddings''] else [])
       @ (if contains config ''embeddings'' \<and> \<not> contains config ''similarity''
          then [Router ''similarity''] else [])"
  by (simp add: start_routers_def Let_def included_add_routes include_router_def)

lemma wired_eq:
  "wired config =
     map fst (filter (\<lambda>(n, r). contains config n) routers)
       @ (if contains config ''cluster'' \<and> \<not> contains config ''embeddings''
          then [''embeddings''] else [])
       @ (if contains config ''embeddings'' \<and> \<not> contains config ''similarity''
          then [''similarity''] else [])"
proof -
  have "map module (map snd (filter (\<lambda>(n, r). contains config n) rs)) = map fst (filter (\<lambda>(n, r). contains config n) rs)"
    if "\<forall>(n, r) \<in> set rs. r = Router n" for rs
    using that by (induction rs) auto
  moreover have "\<forall>(n, r) \<in> set routers. r = Router n"
    by (simp add: routers_def)
  ultimately show ?thesis
    by (simp add: wired_def included_start_routers new_app_def)
qed

lemma set_names_filter:
  "set (map fst (filter (\<lambda>(n, r). contains config n) rs)) = dom config \<inter> fst ` set rs"
  by (induction rs) (auto simp: contains_def)

lemma set_wired:
  "set (wired config) = (dom config \<inter> fst ` set routers)
     \<union> (if contains config ''cluster'' \<and> \<not> contains config ''embeddings'' then {''embeddings''} else {})
     \<union> (if contains config ''embeddings'' \<and> \<not> contains config ''similarity'' then {''similarity''} else {})"
proof -
  have "set (wired config) = set (map fst (filter (\<lambda>(n, r). contains config n) routers))
     \<union> (if contains config ''cluster'' \<and> \<not> contains config ''embeddings'' then {''embeddings''} else {})
     \<union> (if contains config ''embeddings'' \<and> \<not> contains config ''similarity'' then {''similarity''} else {})"
    unfolding wired_eq set_append by (simp only: Un_assoc if_distrib [of set] list.set)
  then show ?thesis
    by (simp only: set_names_filter)
qed

lemma resolved_eq:
  "resolved config = dom config
     \<union> (if contains config ''cluster'' \<and> \<not> contains config ''embeddings'' then {''embeddings''} else {})
     \<union> (if contains config ''embeddings'' \<and> \<not> contains config ''similarity'' then {''similarity''} else {})"
  unfolding resolved_def set_wired by auto

lemma spec_resolve_edges:
  "spec_resolve capability_edges D = D
     \<union> (if ''cluster'' \<in> D \<and> ''embeddings'' \<notin> D then {''embeddings''} else {})
     \<union> (if ''embeddings'' \<in> D \<and> ''similarity'' \<notin> D then {''similarity''} else {})"
  by (simp add: spec_resolve_def capability_edges_def)

lemma contains_dom: "contains config n \<longleftrightarrow> n \<in> dom config"
  by (auto simp: contains_def)

lemma dom_keys_config: "dom (keys_config D) = D"
  by (auto simp: keys_config_def dom_def)

lemma resolved_spec: "resolved config = spec_resolve capability_edges (dom config)"
  by (simp only: resolved_eq spec_resolve_edges contains_dom)

lemma resolve_spec: "resolve D = spec_resolve capability_edges D"
  by (simp only: resolve_def resolved_spec dom_keys_config)

lemma routers_have_embeddings: "''embeddings'' \<in> fst ` set routers"
  by (simp add: routers_def)

lemma routers_have_similarity: "''similarity'' \<in> fst ` set routers"
  by (simp add: routers_def)

lemma set_wired_spec:
  "set (wired config) = spec_resolve capability_edges (dom config) \<inter> fst ` set routers"
  unfolding set_wired spec_resolve_edges contains_dom
  using routers_have_embeddings routers_have_similarity
  by (cases "''cluster'' \<in> dom config"; cases "''embeddings'' \<in> dom config"; cases "''similarity'' \<in> dom config") (simp_all add: Int_Un_distrib2)

lemma mem_resolve:
  "x \<in> resolve D \<longleftrightarrow>
     x \<in> D \<or> (x = ''embeddings'' \<and> ''cluster'' \<in> D \<and> ''embeddings'' \<notin> D)
           \<or> (x = ''similarity'' \<and> ''embeddings'' \<in> D \<and> ''similarity'' \<notin> D)"
  unfolding resolve_spec spec_resolve_edges by (auto split: if_splits)

lemma resolve_twice_val:
  "resolve (resolve D) = resolve D \<union> (if ''cluster'' \<in> D \<and> ''embeddings'' \<notin> D \<and> ''similarity'' \<notin> D then {''similarity''} else {})"
proof (rule set_eqI)
  fix x
  show "x \<in> resolve (resolve D) \<longleftrightarrow> x \<in> resolve D \<union> (if ''cluster'' \<in> D \<and> ''embeddings'' \<notin> D \<and> ''similarity'' \<notin> D then {''similarity''} else {})"
    by (simp add: mem_resolve) blast
qed

lemma sim_resolve: "''similarity'' \<in> resolve D \<longleftrightarrow> ''similarity'' \<in> D \<or> ''embeddings'' \<in> D"
  by (simp add: mem_resolve) blast

lemma distinct_routers: "distinct (map snd routers)"
  by (simp add: routers_def)

lemma distinct_selected: "distinct (map snd (filter P routers))"
  by (rule distinct_map_filter) (rule distinct_routers)

lemma routers_named: "(n, r) \<in> set routers \<Longrightarrow> r = Router n"
  by (auto simp: routers_def)

lemma set_selected:
  assumes "Router n \<in> set (map snd (filter (\<lambda>(n, r). contains config n) routers))"
  shows "contains config n"
proof -
  from assms obtain m where m: "(m, Router n) \<in> set routers" "contains config m"
    by auto
  from routers_named [OF m(1)] have "m = n" by simp
  with m show ?thesis by simp
qed

lemma included_new:
  "\<exists>new. included (start_routers config a) = included a @ new \<and> distinct new"
proof -
  let ?sel = "map snd (filter (\<lambda>(n, r). contains config n) routers)"
  let ?e = "if contains config ''cluster'' \<and> \<not> contains config ''embeddings''
          then [Router ''embeddings''] else []"
  let ?s = "if contains config ''embeddings'' \<and> \<not> contains config ''similarity''
          then [Router ''similarity''] else []"
  have e: "set ?sel \<inter> set ?e = {}"
  proof (cases "contains config ''embeddings''")
    case True
    then show ?thesis by simp
  next
    case False
    then have "Router ''embeddings'' \<notin> set ?sel" using set_selected by blast
    then show ?thesis by (simp only: list.set Int_empty_right Int_insert_right if_False simp_thms split: if_split)
  qed
  have s: "set ?sel \<inter> set ?s = {}"
  proof (cases "contains config ''similarity''")
    case True
    then show ?thesis by simp
  next
    case False
    then have "Router ''similarity'' \<notin> set ?sel" using set_selected by blast
    then show ?thesis by (simp only: list.set Int_empty_right Int_insert_right if_False simp_thms split: if_split)
  qed
  have es: "set ?e \<inter> set ?s = {}" by auto
  have "distinct (?sel @ ?e @ ?s)"
    using distinct_selected [of "\<lambda>(n, r). contains config n"] e s es
    by (simp add: Int_Un_distrib)
  then show ?thesis
    unfolding included_start_routers by blast
qed

lemma wired_cluster: "wired (keys_config {''cluster''}) = [''embeddings'']"
  by (simp add: wired_eq contains_def keys_config_def routers_def)

lemma wired_embeddings: "wired (keys_config {''embeddings''}) = [''embeddings'', ''similarity'']"
  by (simp add: wired_eq contains_def keys_config_def routers_def)

lemma wired_both:
  "wired (keys_config {''embeddings'', ''similarity''}) = [''embeddings'', ''similarity'']"
  by (simp add: wired_eq contains_def keys_config_def routers_def)

lemma resolve_cluster: "resolve {''cluster''} = {''cluster'', ''embeddings''}"
  by (simp add: resolve_spec spec_resolve_edges insert_commute)

lemma resolve_embeddings: "resolve {''embeddings''} = {''embeddings'', ''similarity''}"
  by (simp add: resolve_spec spec_resolve_edges insert_commute)

lemma resolve_both: "resolve {''embeddings'', ''similarity''} = {''embeddings'', ''similarity''}"
  by (simp add: resolve_spec spec_resolve_edges)

text \<open>
  Claim C1. The capabilities in force after the wiring pass of \<open>start\<close> are the
  declared keys together with every implied name whose trigger is declared and which
  is not declared itself, each edge tested on the declared keys alone; the routers
  wired are those of this set that have a router. With the keys \<open>{cluster}\<close> the
  result is \<open>{cluster, embeddings}\<close> and only the embeddings router is wired (no
  similarity through the implied embeddings); with \<open>{embeddings}\<close> it is
  \<open>{embeddings, similarity}\<close>; with \<open>{embeddings, similarity}\<close> it is the same
  set, each router wired once.
\<close>

theorem resolution_is_single_hop:
  "resolve D = spec_resolve capability_edges D
   \<and> resolved config = spec_resolve capability_edges (dom config)
   \<and> set (wired config) = spec_resolve capability_edges (dom config) \<inter> fst ` set routers
   \<and> resolve {''cluster''} = {''cluster'', ''embeddings''}
   \<and> wired (keys_config {''cluster''}) = [''embeddings'']
   \<and> resolve {''embeddings''} = {''embeddings'', ''similarity''}
   \<and> wired (keys_config {''embeddings''}) = [''embeddings'', ''similarity'']
   \<and> resolve {''embeddings'', ''similarity''} = {''embeddings'', ''similarity''}
   \<and> wired (keys_config {''embeddings'', ''similarity''}) = [''embeddings'', ''similarity'']"
  using resolve_spec [of D] resolved_spec [of config] set_wired_spec [of config]
    resolve_cluster wired_cluster resolve_embeddings wired_embeddings resolve_both wired_both
  by (intro conjI)

text \<open>
  Claim C2, as stated, fails: resolving the keys \<open>{cluster}\<close> gives
  \<open>{cluster, embeddings}\<close>, and resolving that set adds \<open>similarity\<close>, because the
  second pass sees \<open>embeddings\<close> as declared.
\<close>

theorem resolve_not_idempotent_at_cluster:
  "resolve (resolve {''cluster''}) \<noteq> resolve {''cluster''}"
proof -
  have "''similarity'' \<in> resolve (resolve {''cluster''})"
    by (simp add: resolve_twice_val)
  moreover have "''similarity'' \<notin> resolve {''cluster''}"
    by (simp add: sim_resolve)
  ultimately show ?thesis by metis
qed

text \<open>
  Claim C2, amended. Resolving a resolved set gives the same set exactly when the
  declared set does not hold \<open>cluster\<close> with neither \<open>embeddings\<close> nor
  \<open>similarity\<close>; in that one case the second resolution adds \<open>similarity\<close> and
  nothing else.
\<close>

theorem resolve_idempotent_iff:
  "(resolve (resolve D) = resolve D)
     = (\<not> (''cluster'' \<in> D \<and> ''embeddings'' \<notin> D \<and> ''similarity'' \<notin> D))
   \<and> resolve (resolve D) = resolve D \<union>
         (if ''cluster'' \<in> D \<and> ''embeddings'' \<notin> D \<and> ''similarity'' \<notin> D
          then {''similarity''} else {})"
proof (cases "''cluster'' \<in> D \<and> ''embeddings'' \<notin> D \<and> ''similarity'' \<notin> D")
  case True
  then have "''similarity'' \<notin> resolve D" by (simp add: sim_resolve)
  moreover from True have "''similarity'' \<in> resolve (resolve D)" by (simp add: resolve_twice_val)
  ultimately have "resolve (resolve D) \<noteq> resolve D" by metis
  with True show ?thesis by (simp add: resolve_twice_val)
next
  case False
  then show ?thesis by (simp only: resolve_twice_val if_False Un_empty_right simp_thms)
qed

text \<open>
  Claim C3. One wiring pass includes every router at most once, whatever the
  configuration: the pass appends to the routers of the app a list without
  repetition, so no router's count grows by more than one, and into a new app no
  router is included twice.
\<close>

theorem router_registered_at_most_once:
  "count_list (included (start_routers config a)) r \<le> count_list (included a) r + 1
   \<and> distinct (included (start_routers config new_app))
   \<and> distinct (wired config)"
proof -
  obtain new where new: "included (start_routers config a) = included a @ new" "distinct new"
    using included_new by blast
  have "count_list new r \<le> 1"
    using new(2) by (induction new) auto
  then have count: "count_list (included (start_routers config a)) r \<le> count_list (included a) r + 1"
    by (simp add: new(1))
  obtain new' where new': "included (start_routers config new_app) = included new_app @ new'" "distinct new'"
    using included_new by blast
  then have d: "distinct (included (start_routers config new_app))"
    by (simp add: new_app_def)
  have "inj_on module (set (included (start_routers config new_app)))"
    by (rule inj_onI) (simp add: router.expand)
  with d have "distinct (wired config)"
    by (simp add: wired_def distinct_map)
  with count d show ?thesis by simp
qed

section \<open>Properties of the extension loop and of \<open>start\<close>\<close>

lemma run_extensions_step:
  "run_extensions d (extension # rest) g = (None, g') \<Longrightarrow>
     \<exists>instance a. Factory_get d (str_strip extension) = Inr (Inr instance)
        \<and> instance (app g) = (None, a)
        \<and> run_extensions d rest
             (g\<lparr>calls := calls g @ [FactoryGet (str_strip extension), Construct (str_strip extension),
                                      Invoke (str_strip extension)],
                app := a\<rparr>) = (None, g')"
  by (auto simp: Let_def split: sum.splits option.splits prod.splits)

lemma run_extensions_calls:
  "run_extensions d names g = (None, g') \<Longrightarrow>
     calls g' = calls g @ concat (map (\<lambda>n. [FactoryGet (str_strip n), Construct (str_strip n), Invoke (str_strip n)]) names)"
proof (induction names arbitrary: g)
  case Nil
  then show ?case by simp
next
  case (Cons n names)
  from run_extensions_step [OF Cons.prems] obtain inst a where
    rest: "run_extensions d names
             (g\<lparr>calls := calls g @ [FactoryGet (str_strip n), Construct (str_strip n), Invoke (str_strip n)],
                app := a\<rparr>) = (None, g')"
    by blast
  from Cons.IH [OF rest] show ?case by simp
qed


lemma run_extensions_INSTANCE:
  "run_extensions d names g = (r, g') \<Longrightarrow> INSTANCE g' = INSTANCE g"
proof (induction names arbitrary: g)
  case Nil
  then show ?case by simp
next
  case (Cons n names)
  then show ?case
    by (fastforce simp: Let_def split: sum.splits option.splits prod.splits)
qed


lemma count_concat_map:
  "count_list (concat (map (\<lambda>n. [FactoryGet (f n), Construct (f n), Invoke (f n)]) names)) (Invoke m) = count_list (map f names) m"
  by (induction names) auto


lemma run_extensions_calls_prefix:
  "\<exists>k. calls (snd (run_extensions d names g)) =
         calls g @ take k (concat (map (\<lambda>n. [FactoryGet (str_strip n), Construct (str_strip n), Invoke (str_strip n)]) names))"
proof (induction names arbitrary: g)
  case Nil
  then show ?case by simp
next
  case (Cons n names)
  let ?t = "[FactoryGet (str_strip n), Construct (str_strip n), Invoke (str_strip n)]"
  let ?rest = "concat (map (\<lambda>n. [FactoryGet (str_strip n), Construct (str_strip n), Invoke (str_strip n)]) names)"
  have eq: "concat (map (\<lambda>n. [FactoryGet (str_strip n), Construct (str_strip n), Invoke (str_strip n)]) (n # names)) = ?t @ ?rest"
    by simp
  show ?case
  proof (cases "Factory_get d (str_strip n)")
    case (Inl e)
    then have "calls (snd (run_extensions d (n # names) g)) = calls g @ take 1 (?t @ ?rest)"
      by (simp add: Let_def)
    then show ?thesis unfolding eq by (rule exI)
  next
    case (Inr cls)
    show ?thesis
    proof (cases cls)
      case (Inl e)
      with Inr have "calls (snd (run_extensions d (n # names) g)) = calls g @ take 2 (?t @ ?rest)"
        by (simp add: Let_def numeral_2_eq_2)
      then show ?thesis unfolding eq by (rule exI)
    next
      case inst: (Inr inst)
      obtain r a where call: "inst (app (g\<lparr>calls := calls g @ ?t\<rparr>)) = (r, a)"
        by (cases "inst (app (g\<lparr>calls := calls g @ ?t\<rparr>))")
      show ?thesis
      proof (cases r)
        case (Some e)
        with Inr inst call have "calls (snd (run_extensions d (n # names) g)) = calls g @ take 3 (?t @ ?rest)"
          by (simp add: Let_def numeral_3_eq_3)
        then show ?thesis unfolding eq by (rule exI)
      next
        case None
        with Inr inst call have run:
          "run_extensions d (n # names) g = run_extensions d names (g\<lparr>calls := calls g @ ?t, app := a\<rparr>)"
          by (simp add: Let_def)
        from Cons.IH [of "g\<lparr>calls := calls g @ ?t, app := a\<rparr>"] obtain k where
          "calls (snd (run_extensions d names (g\<lparr>calls := calls g @ ?t, app := a\<rparr>))) =
             (calls g @ ?t) @ take k ?rest"
          by auto
        with run have "calls (snd (run_extensions d (n # names) g)) =
            calls g @ take (Suc (Suc (Suc k))) (?t @ ?rest)"
          by (simp del: run_extensions.simps)
        then show ?thesis unfolding eq by (rule exI)
      qed
    qed
  qed
qed

lemma start_read_ok:
  assumes "API_read d (getenv d ''CONFIG'') = Inr config"
    and "(if truthy (getenv d ''API_CLASS'')
          then Factory_create d config (the (getenv d ''API_CLASS''))
          else API_new d config) = Inr inst"
  shows "start d g =
           (if truthy (getenv d ''EXTENSIONS'')
            then run_extensions d (str_split (of_char CHR '','') (the (getenv d ''EXTENSIONS'')))
                   (g\<lparr>INSTANCE := Some inst, app := start_routers config (app g)\<rparr>)
            else (None, g\<lparr>INSTANCE := Some inst, app := start_routers config (app g)\<rparr>))"
  unfolding start_def Let_def using assms by (simp del: run_extensions.simps)

lemma start_read_fails:
  "API_read d (getenv d ''CONFIG'') = Inl e \<Longrightarrow> start d g = (Some e, g)"
  unfolding start_def by simp

lemma start_instance_fails:
  assumes "API_read d (getenv d ''CONFIG'') = Inr config"
    and "(if truthy (getenv d ''API_CLASS'')
          then Factory_create d config (the (getenv d ''API_CLASS''))
          else API_new d config) = Inl e"
  shows "start d g = (Some e, g)"
  unfolding start_def Let_def using assms by (simp del: run_extensions.simps)

lemma start_success:
  assumes "start d g = (None, g')"
  shows "\<exists>config inst. API_read d (getenv d ''CONFIG'') = Inr config
           \<and> (if truthy (getenv d ''API_CLASS'')
               then Factory_create d config (the (getenv d ''API_CLASS''))
               else API_new d config) = Inr inst
           \<and> (if truthy (getenv d ''EXTENSIONS'')
               then run_extensions d (str_split (of_char CHR '','') (the (getenv d ''EXTENSIONS'')))
                      (g\<lparr>INSTANCE := Some inst, app := start_routers config (app g)\<rparr>)
               else (None, g\<lparr>INSTANCE := Some inst, app := start_routers config (app g)\<rparr>)) = (None, g')"
proof (cases "API_read d (getenv d ''CONFIG'')")
  case (Inl e)
  from start_read_fails [OF Inl, of g] assms show ?thesis by simp
next
  case config: (Inr config)
  show ?thesis
  proof (cases "if truthy (getenv d ''API_CLASS'')
          then Factory_create d config (the (getenv d ''API_CLASS''))
          else API_new d config")
    case (Inl e)
    from start_instance_fails [OF config Inl, of g] assms show ?thesis by simp
  next
    case (Inr inst)
    from start_read_ok [OF config Inr, of g] assms config Inr show ?thesis
      by (intro exI conjI) simp_all
  qed
qed

lemma run_extensions_step_ok:
  assumes "Factory_get d (str_strip extension) = Inr (Inr inst)"
    and "inst (app g) = (None, a)"
  shows "run_extensions d (extension # rest) g =
           run_extensions d rest
             (g\<lparr>calls := calls g @ [FactoryGet (str_strip extension), Construct (str_strip extension),
                                      Invoke (str_strip extension)],
                app := a\<rparr>)"
  using assms by (simp add: Let_def)

lemma run_extensions_all_ok:
  "\<forall>n \<in> set names. \<exists>inst. Factory_get d (str_strip n) = Inr (Inr inst) \<and> (\<forall>a. fst (inst a) = None)
     \<Longrightarrow> fst (run_extensions d names g) = None"
proof (induction names arbitrary: g)
  case Nil
  then show ?case by simp
next
  case (Cons n names)
  from Cons.prems obtain inst where
    inst: "Factory_get d (str_strip n) = Inr (Inr inst)" "\<forall>a. fst (inst a) = None"
    by auto
  obtain r a where call: "inst (app g) = (r, a)"
    by (cases "inst (app g)")
  with inst(2) have "r = None" by (metis fst_conv)
  with call have ok: "inst (app g) = (None, a)" by simp
  from Cons.prems have rest:
    "\<forall>n \<in> set names. \<exists>inst. Factory_get d (str_strip n) = Inr (Inr inst) \<and> (\<forall>a. fst (inst a) = None)"
    by simp
  show ?case
    unfolding run_extensions_step_ok [OF inst(1) ok]
    by (rule Cons.IH [OF rest])
qed

lemma start_INSTANCE:
  assumes read: "API_read d (getenv d ''CONFIG'') = Inr config"
    and inst: "(if truthy (getenv d ''API_CLASS'')
                then Factory_create d config (the (getenv d ''API_CLASS''))
                else API_new d config) = Inr inst"
  shows "INSTANCE (snd (start d g)) = Some inst"
proof (cases "truthy (getenv d ''EXTENSIONS'')")
  case True
  let ?g2 = "g\<lparr>INSTANCE := Some inst, app := start_routers config (app g)\<rparr>"
  let ?names = "str_split (of_char CHR '','') (the (getenv d ''EXTENSIONS''))"
  from start_read_ok [OF read inst, of g] True
  have eq: "start d g = run_extensions d ?names ?g2" by simp
  obtain r g' where run: "run_extensions d ?names ?g2 = (r, g')"
    by (cases "run_extensions d ?names ?g2")
  from run_extensions_INSTANCE [OF run] have "INSTANCE g' = Some inst" by simp
  with eq run show ?thesis by simp
next
  case False
  with start_read_ok [OF read inst, of g] show ?thesis by simp
qed

lemmas test_defs = test_collaborators_def truthy_def str_strip_def isspace_def registry_get_def
  test_registry_def marking_def include_router_def start_routers_def routers_def contains_def
  module_globals_def new_app_def Let_def start_def ustr_def

lemma strip_unicode_whitespace:
  "str_strip ([8195, 160, 133] @ ustr '' x y '' @ [12288, 10]) = ustr ''x y''"
  by (simp add: str_strip_def isspace_def ustr_def)

lemma start_no_break_space:
  "start (test_collaborators (Some (ustr ''a,'' @ [160] @ ustr ''b''))) module_globals =
     (None, \<lparr>INSTANCE = Some ''api'',
              app = \<lparr>included = [Router ''embeddings'', Router ''similarity'',
                                  Router ''a'', Router ''b''], other = ()\<rparr>,
              calls = [FactoryGet (ustr ''a''), Construct (ustr ''a''), Invoke (ustr ''a''),
                       FactoryGet (ustr ''b''), Construct (ustr ''b''), Invoke (ustr ''b'')]\<rparr>)"
  by (simp add: test_defs)

text \<open>
  Claim C4, as stated, fails: with \<open>EXTENSIONS = "a,a"\<close> \<open>start\<close> returns normally and
  has invoked the extension \<open>a\<close> twice, not once.
\<close>

theorem extension_listed_twice_runs_twice:
  "fst (start (test_collaborators (Some (ustr ''a,a''))) module_globals) = None
   \<and> count_list (calls (snd (start (test_collaborators (Some (ustr ''a,a''))) module_globals)))
         (Invoke (ustr ''a'')) = 2"
  by (simp add: test_defs)

text \<open>
  Claim C4, amended. \<open>start\<close> runs the extension loop on the fields of \<open>EXTENSIONS\<close>,
  and the loop handles the entries one after the other, in the order of the list:
  whatever the outcome, the calls made are an initial part of the sequence "resolve,
  instantiate, invoke" of the first entry, then of the second, and so on. An entry that
  resolves and whose instance returns is invoked with the app as its one argument, and
  the rest of the list then runs on the app that this call left, so an entry is invoked
  in full before the next one is constructed. When every entry resolves and no call
  raises, the loop returns normally and has made the whole sequence: each entry is
  resolved, instantiated and invoked exactly once, so a name is invoked as many times
  as it is listed, and exactly once when it is listed once.
\<close>

theorem extensions_run_in_declared_order:
  "(\<exists>k. calls (snd (run_extensions d names g)) =
          calls g @ take k (concat (map (\<lambda>n. [FactoryGet (str_strip n), Construct (str_strip n),
                                                Invoke (str_strip n)]) names)))
   \<and> (Factory_get d (str_strip extension) = Inr (Inr inst) \<and> inst (app g) = (None, a) \<longrightarrow>
        run_extensions d (extension # rest) g =
          run_extensions d rest
            (g\<lparr>calls := calls g @ [FactoryGet (str_strip extension), Construct (str_strip extension),
                                     Invoke (str_strip extension)],
               app := a\<rparr>))
   \<and> ((\<forall>n \<in> set names. \<exists>i. Factory_get d (str_strip n) = Inr (Inr i) \<and> (\<forall>b. fst (i b) = None)) \<longrightarrow>
        fst (run_extensions d names g) = None
        \<and> calls (snd (run_extensions d names g)) =
            calls g @ concat (map (\<lambda>n. [FactoryGet (str_strip n), Construct (str_strip n),
                                          Invoke (str_strip n)]) names)
        \<and> count_list (calls (snd (run_extensions d names g))) (Invoke m) =
            count_list (calls g) (Invoke m) + count_list (map str_strip names) m)
   \<and> (run_extensions d names g = (None, g') \<longrightarrow>
        calls g' = calls g @ concat (map (\<lambda>n. [FactoryGet (str_strip n), Construct (str_strip n),
                                                 Invoke (str_strip n)]) names)
        \<and> count_list (calls g') (Invoke m) =
            count_list (calls g) (Invoke m) + count_list (map str_strip names) m)
   \<and> (API_read d (getenv d ''CONFIG'') = Inr config
        \<and> (if truthy (getenv d ''API_CLASS'')
            then Factory_create d config (the (getenv d ''API_CLASS''))
            else API_new d config) = Inr api
        \<longrightarrow> start d g =
             (if truthy (getenv d ''EXTENSIONS'')
              then run_extensions d (str_split (of_char CHR '','') (the (getenv d ''EXTENSIONS'')))
                     (g\<lparr>INSTANCE := Some api, app := start_routers config (app g)\<rparr>)
              else (None, g\<lparr>INSTANCE := Some api, app := start_routers config (app g)\<rparr>)))"
proof (intro conjI impI)
  show "\<exists>k. calls (snd (run_extensions d names g)) =
          calls g @ take k (concat (map (\<lambda>n. [FactoryGet (str_strip n), Construct (str_strip n),
                                                Invoke (str_strip n)]) names))"
    by (rule run_extensions_calls_prefix)
next
  assume "Factory_get d (str_strip extension) = Inr (Inr inst) \<and> inst (app g) = (None, a)"
  then show "run_extensions d (extension # rest) g =
          run_extensions d rest
            (g\<lparr>calls := calls g @ [FactoryGet (str_strip extension), Construct (str_strip extension),
                                     Invoke (str_strip extension)],
               app := a\<rparr>)"
    using run_extensions_step_ok by blast
next
  assume all: "\<forall>n \<in> set names. \<exists>i. Factory_get d (str_strip n) = Inr (Inr i) \<and> (\<forall>b. fst (i b) = None)"
  then show none: "fst (run_extensions d names g) = None"
    by (rule run_extensions_all_ok)
  then have run: "run_extensions d names g = (None, snd (run_extensions d names g))"
    by (metis prod.collapse)
  from run_extensions_calls [OF run]
  show full: "calls (snd (run_extensions d names g)) =
            calls g @ concat (map (\<lambda>n. [FactoryGet (str_strip n), Construct (str_strip n),
                                          Invoke (str_strip n)]) names)" .
  show "count_list (calls (snd (run_extensions d names g))) (Invoke m) =
            count_list (calls g) (Invoke m) + count_list (map str_strip names) m"
    unfolding full by (simp only: count_list_append count_concat_map)
next
  assume "run_extensions d names g = (None, g')"
  then show full: "calls g' = calls g @ concat (map (\<lambda>n. [FactoryGet (str_strip n), Construct (str_strip n),
                                                 Invoke (str_strip n)]) names)"
    by (rule run_extensions_calls)
  show "count_list (calls g') (Invoke m) =
            count_list (calls g) (Invoke m) + count_list (map str_strip names) m"
    unfolding full by (simp only: count_list_append count_concat_map)
next
  assume "API_read d (getenv d ''CONFIG'') = Inr config
        \<and> (if truthy (getenv d ''API_CLASS'')
            then Factory_create d config (the (getenv d ''API_CLASS''))
            else API_new d config) = Inr api"
  then have read: "API_read d (getenv d ''CONFIG'') = Inr config"
    and build: "(if truthy (getenv d ''API_CLASS'')
            then Factory_create d config (the (getenv d ''API_CLASS''))
            else API_new d config) = Inr api"
    by simp_all
  show "start d g =
             (if truthy (getenv d ''EXTENSIONS'')
              then run_extensions d (str_split (of_char CHR '','') (the (getenv d ''EXTENSIONS'')))
                     (g\<lparr>INSTANCE := Some api, app := start_routers config (app g)\<rparr>)
              else (None, g\<lparr>INSTANCE := Some api, app := start_routers config (app g)\<rparr>))"
    by (rule start_read_ok [OF read build])
qed

theorem extensions_witness:
  "fst (run_extensions (test_collaborators None) [ustr ''a'', ustr '' b''] module_globals) = None
   \<and> calls (snd (run_extensions (test_collaborators None) [ustr ''a'', ustr '' b''] module_globals)) =
       [FactoryGet (ustr ''a''), Construct (ustr ''a''), Invoke (ustr ''a''),
        FactoryGet (ustr ''b''), Construct (ustr ''b''), Invoke (ustr ''b'')]
   \<and> count_list
         (calls (snd (run_extensions (test_collaborators None) [ustr ''a'', ustr '' b''] module_globals)))
         (Invoke (ustr ''b'')) = 1"
proof -
  have resolves:
    "\<forall>n \<in> set [ustr ''a'', ustr '' b''].
       \<exists>i. Factory_get (test_collaborators None) (str_strip n) = Inr (Inr i) \<and> (\<forall>b. fst (i b) = None)"
    by (simp add: test_defs)
  from extensions_run_in_declared_order
         [THEN conjunct2, THEN conjunct2, THEN conjunct1, THEN mp, OF resolves,
          of module_globals "ustr ''b''"]
  show ?thesis
    by (simp add: ustr_def str_strip_def isspace_def module_globals_def)
qed




text \<open>
  Claim C9, as stated, fails: before \<open>start\<close> has run the accessor returns
  \<open>None\<close>, and it raises nothing.
\<close>

theorem get_before_start_returns_None:
  "get (module_globals :: (string, unit) globals) = Inr None
   \<and> (\<forall>e. get (module_globals :: (string, unit) globals) \<noteq> Inl e)"
  by (simp add: get_def module_globals_def)

text \<open>
  Claim C9, amended. The accessor returns what the global \<open>INSTANCE\<close> holds and
  never raises: \<open>None\<close> before \<open>start\<close> has run; and once \<open>start\<close> has built the
  instance (by \<open>Factory.create\<close> when \<open>API_CLASS\<close> is set, by \<open>API\<close> otherwise, from
  the configuration read), that very instance, whether the extensions then run
  through or not. When \<open>start\<close> has returned normally, the instance was built and is
  what the accessor returns.
\<close>

theorem get_returns_slot:
  "get g = Inr (INSTANCE g)
   \<and> get module_globals = Inr None
   \<and> (API_read d (getenv d ''CONFIG'') = Inr config
        \<and> (if truthy (getenv d ''API_CLASS'')
            then Factory_create d config (the (getenv d ''API_CLASS''))
            else API_new d config) = Inr api
        \<longrightarrow> get (snd (start d g)) = Inr (Some api))
   \<and> (start d g = (None, g') \<longrightarrow>
        (\<exists>config api.
            API_read d (getenv d ''CONFIG'') = Inr config
            \<and> (if truthy (getenv d ''API_CLASS'')
                then Factory_create d config (the (getenv d ''API_CLASS''))
                else API_new d config) = Inr api
            \<and> get g' = Inr (Some api)))"
proof (intro conjI impI)
  show "get g = Inr (INSTANCE g)"
    by (simp add: get_def)
next
  show "get module_globals = Inr None"
    by (simp add: get_def module_globals_def)
next
  assume "API_read d (getenv d ''CONFIG'') = Inr config
        \<and> (if truthy (getenv d ''API_CLASS'')
            then Factory_create d config (the (getenv d ''API_CLASS''))
            else API_new d config) = Inr api"
  then have read: "API_read d (getenv d ''CONFIG'') = Inr config"
    and build: "(if truthy (getenv d ''API_CLASS'')
            then Factory_create d config (the (getenv d ''API_CLASS''))
            else API_new d config) = Inr api"
    by simp_all
  from start_INSTANCE [OF read build, of g]
  show "get (snd (start d g)) = Inr (Some api)"
    by (simp add: get_def)
next
  assume ret: "start d g = (None, g')"
  from start_success [OF ret] obtain config api where
    read: "API_read d (getenv d ''CONFIG'') = Inr config" and
    build: "(if truthy (getenv d ''API_CLASS'')
            then Factory_create d config (the (getenv d ''API_CLASS''))
            else API_new d config) = Inr api"
    by blast
  from start_INSTANCE [OF read build, of g] ret have "get g' = Inr (Some api)"
    by (simp add: get_def)
  with read build
  show "\<exists>config api.
            API_read d (getenv d ''CONFIG'') = Inr config
            \<and> (if truthy (getenv d ''API_CLASS'')
                then Factory_create d config (the (getenv d ''API_CLASS''))
                else API_new d config) = Inr api
            \<and> get g' = Inr (Some api)"
    by blast
qed

theorem get_returns_slot_witness:
  "API_read (test_collaborators None) (getenv (test_collaborators None) ''CONFIG'')
     = Inr [''embeddings'' \<mapsto> ()]
   \<and> API_new (test_collaborators None) [''embeddings'' \<mapsto> ()] = Inr ''api''
   \<and> get (snd (start (test_collaborators None) module_globals)) = Inr (Some ''api'')"
proof -
  let ?d = "test_collaborators None"
  have read: "API_read ?d (getenv ?d ''CONFIG'') = Inr [''embeddings'' \<mapsto> ()]"
    by (simp add: test_collaborators_def)
  have new: "API_new ?d [''embeddings'' \<mapsto> ()] = Inr ''api''"
    by (simp add: test_collaborators_def)
  have build: "(if truthy (getenv ?d ''API_CLASS'')
            then Factory_create ?d [''embeddings'' \<mapsto> ()] (the (getenv ?d ''API_CLASS''))
            else API_new ?d [''embeddings'' \<mapsto> ()]) = Inr ''api''"
    by (simp add: test_collaborators_def truthy_def)
  from get_returns_slot [THEN conjunct2, THEN conjunct2, THEN conjunct1, THEN mp, OF conjI, OF read build]
    read new
  show ?thesis by simp
qed

section \<open>Properties of the LLM pipeline\<close>

lemma LLM_init_path:
  "LLM_init create path method kwargs =
     map_sum id (\<lambda>g. \<lparr>generator = g\<rparr>)
       (create (if truthy path then the path else ''google/flan-t5-base'') method kwargs)"
  by (simp add: LLM_init_def Let_def split: sum.splits)




lemma create_unknown:
  "families m = None \<Longrightarrow>
     GenerationFactory_create families inference path (Some m) kwargs = Inl (ConfigurationError m)"
  by (simp add: GenerationFactory_create_def)

text \<open>
  Claim C6. For every identifier and every keyword arguments, constructing the LLM
  with an explicit method that the resolver does not support raises a
  \<open>ConfigurationError\<close> that carries the name of the method; no backend of another
  family is constructed in its place.
\<close>

theorem unsupported_method_raises_configuration_error:
  assumes "families method = None"
  shows "LLM_init (GenerationFactory_create families inference) path (Some method) kwargs
           = Inl (ConfigurationError method)"
  using assms by (simp add: LLM_init_path create_unknown)

theorem unsupported_method_witness:
  "test_families ''nonexistent'' = None
   \<and> LLM_init (GenerationFactory_create test_families (infer test_markers ''transformers''))
         (Some ''model.gguf'') (Some ''nonexistent'') () = Inl (ConfigurationError ''nonexistent'')"
proof -
  have none: "test_families ''nonexistent'' = None"
    by (simp add: test_families_def)
  from unsupported_method_raises_configuration_error
         [of test_families "''nonexistent''" "infer test_markers ''transformers''"
            "Some ''model.gguf''" "()"] none
  show ?thesis by simp
qed

text \<open>
  Claim C7. The call of the LLM passes the text, the maximum length (512 when the
  caller leaves it out) and the keyword arguments to the generator as they are, and
  its result is the generator's result: a returned value as returned, a raised error
  as raised. The generator is the backend that the factory returned to the constructor.
\<close>

theorem call_forwards_to_backend:
  "LLM_call self text (Some maxlength) kwargs = generator self text maxlength kwargs
   \<and> LLM_call self text None kwargs = generator self text 512 kwargs
   \<and> (generator self text maxlength kwargs = Inr out \<longrightarrow>
        LLM_call self text (Some maxlength) kwargs = Inr out)
   \<and> (generator self text maxlength kwargs = Inl e \<longrightarrow>
        LLM_call self text (Some maxlength) kwargs = Inl e)
   \<and> (LLM_init create path method init_kwargs = Inr llm \<longrightarrow>
        (\<exists>backend. create (if truthy path then the path else ''google/flan-t5-base'') method init_kwargs
                     = Inr backend
           \<and> LLM_call llm text (Some maxlength) kwargs = backend text maxlength kwargs))"
  by (auto simp: LLM_call_def LLM_init_def Let_def split: sum.splits)

theorem call_forwards_witness:
  "test_backend ''hello world'' 5 [] = Inr ''hello''
   \<and> LLM_call \<lparr>generator = test_backend\<rparr> ''hello world'' (Some 5) [] = Inr ''hello''
   \<and> test_backend [] 5 [(''temperature'', ''0'')] = Inl (OtherError ''empty input'')
   \<and> LLM_call \<lparr>generator = test_backend\<rparr> [] (Some 5) [(''temperature'', ''0'')]
         = Inl (OtherError ''empty input'')"
proof -
  have ok: "test_backend ''hello world'' 5 [] = Inr ''hello''"
    by (simp add: test_backend_def)
  have raised: "test_backend [] 5 [(''temperature'', ''0'')] = Inl (OtherError ''empty input'')"
    by (simp add: test_backend_def)
  from call_forwards_to_backend
         [of "\<lparr>generator = test_backend\<rparr>" "''hello world''" 5 "[]" "''hello''"
            "OtherError ''empty input''" "\<lambda>path method kwargs. Inr test_backend" None None "()"
            "\<lparr>generator = test_backend\<rparr>"]
       call_forwards_to_backend
         [of "\<lparr>generator = test_backend\<rparr>" "[]" 5 "[(''temperature'', ''0'')]" "''hello''"
            "OtherError ''empty input''" "\<lambda>path method kwargs. Inr test_backend" None None "()"
            "\<lparr>generator = test_backend\<rparr>"]
       ok raised
  show ?thesis by simp
qed





text \<open>
  Claim C10. Constructed without a path, or with the empty path, the LLM passes the
  identifier \<open>google/flan-t5-base\<close> to the factory; constructed with any other path,
  it passes that path, unchanged.
\<close>

theorem default_path:
  "LLM_init create None method kwargs =
     map_sum id (\<lambda>g. \<lparr>generator = g\<rparr>) (create ''google/flan-t5-base'' method kwargs)
   \<and> LLM_init create (Some []) method kwargs =
     map_sum id (\<lambda>g. \<lparr>generator = g\<rparr>) (create ''google/flan-t5-base'' method kwargs)
   \<and> (path \<noteq> [] \<longrightarrow>
        LLM_init create (Some path) method kwargs =
          map_sum id (\<lambda>g. \<lparr>generator = g\<rparr>) (create path method kwargs))"
  by (simp add: LLM_init_path truthy_def)

theorem default_path_witness:
  "''my/model.gguf'' \<noteq> []
   \<and> (LLM_init (\<lambda>path method kwargs. Inl (OtherError path)) (Some ''my/model.gguf'') None ()
         :: string error + (string, unit, string) LLM) = Inl (OtherError ''my/model.gguf'')
   \<and> (LLM_init (\<lambda>path method kwargs. Inl (OtherError path)) None None ()
         :: string error + (string, unit, string) LLM) = Inl (OtherError ''google/flan-t5-base'')"
  using default_path
          [of "(\<lambda>path method kwargs. Inl (OtherError path))
                 :: string \<Rightarrow> string option \<Rightarrow> unit \<Rightarrow> string error + (string, unit, string) generation"
              None "()" "''my/model.gguf''"]
  by simp

end
